theory Spec2Isabelle
  imports Complex_Main
begin

section \<open>The Jacobi solver of the Laplace visualiser\<close>

text \<open>
  The solver is the body of \<^verbatim>\<open>LaplaceScene.construct\<close> in \<^verbatim>\<open>src/main.py\<close>
  (the scene text that \<^verbatim>\<open>RenderThread.run\<close> writes out): the zero grid, the
  stamping of the Dirichlet edges, the boundary mask, and the relaxation loop with its
  Neumann updates and its convergence test.

  The grid is a numpy array of shape \<open>(n, n)\<close>; it is modelled as a list of \<open>n\<close> rows of
  \<open>n\<close> cells, row \<open>0\<close> being the top edge. The cells are IEEE doubles in the source and
  real numbers here, so every statement below is about exact arithmetic: which cells
  are read, which are written, and in which order. The sizes \<open>n\<close> and \<open>max_iterations\<close>
  come from spin boxes with the ranges 10..100 and 10..1000 and are natural numbers here.
\<close>

subsection \<open>Boundary conditions\<close>

text \<open>
  \<^verbatim>\<open>bc[edge] = {'type': 'dirichlet' | 'neumann', 'value': float}\<close>, as
  \<^verbatim>\<open>get_boundary_conditions\<close> builds it: the type is \<^verbatim>\<open>'dirichlet'\<close> for combo
  index 0 and \<^verbatim>\<open>'neumann'\<close> otherwise.
\<close>

datatype kind = Dirichlet | Neumann

record edge =
  etype :: kind
  evalue :: real

record boundary_conditions =
  bc_top :: edge
  bc_bottom :: edge
  bc_left :: edge
  bc_right :: edge

type_synonym grid = "real list list"
type_synonym mask = "bool list list"

datatype error = IndexError | ValueError

subsection \<open>Array operations\<close>

text \<open>\<^verbatim>\<open>np.zeros((n, n))\<close> and, with \<open>False\<close>, \<^verbatim>\<open>np.zeros((n, n), dtype=bool)\<close>.\<close>

definition full :: "nat \<Rightarrow> 'a \<Rightarrow> 'a list list" where
  "full n v = replicate n (replicate n v)"

text \<open>\<^verbatim>\<open>g[i, :] = v\<close> and \<^verbatim>\<open>g[:, j] = v\<close>; the index \<^verbatim>\<open>-1\<close> is \<open>n - 1\<close>.\<close>

definition set_row :: "nat \<Rightarrow> nat \<Rightarrow> 'a \<Rightarrow> 'a list list \<Rightarrow> 'a list list" where
  "set_row n i v g = g[i := replicate n v]"

definition set_col :: "nat \<Rightarrow> 'a \<Rightarrow> 'a list list \<Rightarrow> 'a list list" where
  "set_col j v g = map (\<lambda>row. row[j := v]) g"

text \<open>\<^verbatim>\<open>g[i, j] = v\<close>.\<close>

definition set_cell :: "nat \<Rightarrow> nat \<Rightarrow> 'a \<Rightarrow> 'a list list \<Rightarrow> 'a list list" where
  "set_cell i j v g = g[i := (g ! i)[j := v]]"

text \<open>
  \<^verbatim>\<open>g[i, 1:-1] = rhs\<close> and \<^verbatim>\<open>g[1:-1, j] = rhs\<close>, where \<open>f k\<close> is the entry of the
  right-hand side that goes to index \<open>k\<close> of the edge. The slice \<^verbatim>\<open>1:-1\<close> is the indices
  \<open>1 .. n - 2\<close>, and it is empty for \<open>n < 3\<close>.
\<close>

definition assign_row_slice :: "nat \<Rightarrow> nat \<Rightarrow> (nat \<Rightarrow> 'a) \<Rightarrow> 'a list list \<Rightarrow> 'a list list" where
  "assign_row_slice n i f g =
     g[i := map (\<lambda>j. if 1 \<le> j \<and> j < n - 1 then f j else g ! i ! j) [0..<n]]"

definition assign_col_slice :: "nat \<Rightarrow> nat \<Rightarrow> (nat \<Rightarrow> 'a) \<Rightarrow> 'a list list \<Rightarrow> 'a list list" where
  "assign_col_slice n j f g =
     map (\<lambda>i. if 1 \<le> i \<and> i < n - 1 then (g ! i)[j := f i] else g ! i) [0..<n]"

subsection \<open>Initial grid and boundary mask (lines 39 to 67)\<close>

text \<open>
  The four \<^verbatim>\<open>if bc[...]['type'] == 'dirichlet'\<close> assignments, in the order top, bottom,
  left, right. The source runs them twice, once on \<open>u\<close> with the edge's value and once on
  \<open>boundary_mask\<close> with \<open>True\<close>; \<open>f\<close> is what is written for an edge.
\<close>

definition stamp :: "nat \<Rightarrow> boundary_conditions \<Rightarrow> (edge \<Rightarrow> 'a) \<Rightarrow> 'a list list \<Rightarrow> 'a list list" where
  "stamp n bc f g0 =
     (let g1 = (if etype (bc_top bc) = Dirichlet then set_row n 0 (f (bc_top bc)) g0 else g0);
          g2 = (if etype (bc_bottom bc) = Dirichlet then set_row n (n - 1) (f (bc_bottom bc)) g1 else g1);
          g3 = (if etype (bc_left bc) = Dirichlet then set_col 0 (f (bc_left bc)) g2 else g2);
          g4 = (if etype (bc_right bc) = Dirichlet then set_col (n - 1) (f (bc_right bc)) g3 else g3)
      in g4)"

definition initial_grid :: "nat \<Rightarrow> boundary_conditions \<Rightarrow> grid" where
  "initial_grid n bc = stamp n bc evalue (full n 0)"

definition boundary_mask :: "nat \<Rightarrow> boundary_conditions \<Rightarrow> mask" where
  "boundary_mask n bc = stamp n bc (\<lambda>e. True) (full n False)"

subsection \<open>One iteration (lines 205 to 227)\<close>

text \<open>\<^verbatim>\<open>0.25 * (u[i+1, j] + u[i-1, j] + u[i, j+1] + u[i, j-1])\<close>.\<close>

definition jacobi_cell :: "grid \<Rightarrow> nat \<Rightarrow> nat \<Rightarrow> real" where
  "jacobi_cell u i j = 0.25 * (u ! (i + 1) ! j + u ! (i - 1) ! j + u ! i ! (j + 1) + u ! i ! (j - 1))"

text \<open>
  \<^verbatim>\<open>u_new = u.copy()\<close> followed by the two nested loops over \<^verbatim>\<open>range(1, n-1)\<close>: the
  right-hand side reads \<open>u\<close>, the assignment writes \<open>u_new\<close>.
\<close>

definition jacobi_sweep :: "nat \<Rightarrow> mask \<Rightarrow> grid \<Rightarrow> grid" where
  "jacobi_sweep n bmask u =
     fold (\<lambda>i. fold (\<lambda>j u_new. if \<not> bmask ! i ! j
                               then set_cell i j (jacobi_cell u i j) u_new
                               else u_new) [1..<n - 1])
          [1..<n - 1] u"

text \<open>
  The same two loops with the test \<^verbatim>\<open>if not boundary_mask[i, j]\<close> removed: the variant
  that the mask claim compares the solver with.
\<close>

definition jacobi_sweep_unmasked :: "nat \<Rightarrow> grid \<Rightarrow> grid" where
  "jacobi_sweep_unmasked n u =
     fold (\<lambda>i. fold (\<lambda>j u_new. set_cell i j (jacobi_cell u i j) u_new) [1..<n - 1])
          [1..<n - 1] u"

text \<open>
  The four Neumann assignments, in the order top, bottom, left, right; each reads the
  array the earlier ones have written. For \<open>n = 1\<close> the source raises IndexError on the
  first of them that runs and the \<^verbatim>\<open>except\<close> clause swallows it: nothing is written,
  as here, where every slice is empty. The indices \<^verbatim>\<open>-1\<close> and \<^verbatim>\<open>-2\<close> are \<open>n - 1\<close>
  and \<open>n - 2\<close>.
\<close>

definition apply_neumann :: "nat \<Rightarrow> boundary_conditions \<Rightarrow> grid \<Rightarrow> grid" where
  "apply_neumann n bc g0 =
     (let g1 = (if etype (bc_top bc) = Neumann
                then assign_row_slice n 0 (\<lambda>j. g0 ! 1 ! j + evalue (bc_top bc)) g0 else g0);
          g2 = (if etype (bc_bottom bc) = Neumann
                then assign_row_slice n (n - 1) (\<lambda>j. g1 ! (n - 2) ! j - evalue (bc_bottom bc)) g1 else g1);
          g3 = (if etype (bc_left bc) = Neumann
                then assign_col_slice n 0 (\<lambda>i. g2 ! i ! 1 + evalue (bc_left bc)) g2 else g2);
          g4 = (if etype (bc_right bc) = Neumann
                then assign_col_slice n (n - 1) (\<lambda>i. g3 ! i ! (n - 2) - evalue (bc_right bc)) g3 else g3)
      in g4)"

text \<open>The grid \<open>u_new\<close> at the convergence check of an iteration that started with \<open>u\<close>.\<close>

definition sweep :: "nat \<Rightarrow> boundary_conditions \<Rightarrow> mask \<Rightarrow> grid \<Rightarrow> grid" where
  "sweep n bc bmask u = apply_neumann n bc (jacobi_sweep n bmask u)"

text \<open>
  \<^verbatim>\<open>np.max(np.abs(u_new - u))\<close>. numpy raises ValueError on an empty array; \<open>np_max\<close>
  has no equation for it, and \<open>solve\<close> below never gets there: an empty grid fails
  before the loop.
\<close>

definition abs_diff :: "grid \<Rightarrow> grid \<Rightarrow> real list" where
  "abs_diff u_new u = concat (map2 (\<lambda>r' r. map2 (\<lambda>a b. \<bar>a - b\<bar>) r' r) u_new u)"

fun np_max :: "real list \<Rightarrow> real" where
  "np_max (x # xs) = fold max xs x"

definition max_change :: "grid \<Rightarrow> grid \<Rightarrow> real" where
  "max_change u_new u = np_max (abs_diff u_new u)"

subsection \<open>The relaxation loop (lines 196 to 268)\<close>

text \<open>
  The variables the loop updates. \<open>final_iteration\<close> is unbound in the source until the
  convergence test succeeds.
\<close>

record solver_state =
  u :: grid
  converged :: bool
  final_iteration :: "nat option"
  convergence_history :: "real list"

text \<open>The body of the loop up to \<^verbatim>\<open>u = u_new\<close>, for the index \<open>iteration\<close>.\<close>

definition loop_body :: "nat \<Rightarrow> boundary_conditions \<Rightarrow> mask \<Rightarrow> real \<Rightarrow> nat \<Rightarrow> solver_state \<Rightarrow> solver_state" where
  "loop_body n bc bmask tolerance iteration s =
     (let u_new = sweep n bc bmask (u s);
          mc = max_change u_new (u s);
          history = convergence_history s @ [mc]
      in if mc < tolerance \<and> iteration > 10
         then \<lparr>u = u_new, converged = True, final_iteration = Some (iteration + 1),
               convergence_history = history\<rparr>
         else \<lparr>u = u_new, converged = converged s, final_iteration = final_iteration s,
               convergence_history = history\<rparr>)"

text \<open>
  \<^verbatim>\<open>for iteration in range(max_iterations): ...; if converged: break\<close>, over the list
  of the indices still to run.
\<close>

fun for_loop :: "nat \<Rightarrow> boundary_conditions \<Rightarrow> mask \<Rightarrow> real \<Rightarrow> nat list \<Rightarrow> solver_state \<Rightarrow> solver_state" where
  "for_loop n bc bmask tolerance [] s = s"
| "for_loop n bc bmask tolerance (iteration # rest) s =
     (let s' = loop_body n bc bmask tolerance iteration s
      in if converged s' then s' else for_loop n bc bmask tolerance rest s')"

text \<open>
  The whole computation. An empty grid never reaches the loop: with a Dirichlet edge the
  assignment to \<open>boundary_mask\<close> raises IndexError (it is outside the \<^verbatim>\<open>try\<close>), and
  without one the first reduction over the grid raises ValueError.
\<close>

definition solve :: "nat \<Rightarrow> boundary_conditions \<Rightarrow> real \<Rightarrow> nat \<Rightarrow> error + solver_state" where
  "solve n bc tolerance max_iterations =
     (if n = 0
      then (if etype (bc_top bc) = Dirichlet \<or> etype (bc_bottom bc) = Dirichlet
               \<or> etype (bc_left bc) = Dirichlet \<or> etype (bc_right bc) = Dirichlet
            then Inl IndexError else Inl ValueError)
      else Inr (for_loop n bc (boundary_mask n bc) tolerance [0..<max_iterations]
                  \<lparr>u = initial_grid n bc, converged = False, final_iteration = None,
                   convergence_history = []\<rparr>))"

text \<open>
  The iteration count of the final message (lines 263 to 268): \<open>final_iteration\<close> after
  convergence, \<open>max_iterations\<close> otherwise.
\<close>

definition iterations_run :: "nat \<Rightarrow> solver_state \<Rightarrow> nat" where
  "iterations_run max_iterations s =
     (if converged s
      then (case final_iteration s of Some k \<Rightarrow> k | None \<Rightarrow> max_iterations)
      else max_iterations)"

subsection \<open>The grids of a run\<close>

text \<open>The grid \<open>u\<close> after \<open>k\<close> iterations, and the change that iteration \<open>k\<close> measures.\<close>

definition grid_at :: "nat \<Rightarrow> boundary_conditions \<Rightarrow> nat \<Rightarrow> grid" where
  "grid_at n bc k = ((sweep n bc (boundary_mask n bc)) ^^ k) (initial_grid n bc)"

definition change_at :: "nat \<Rightarrow> boundary_conditions \<Rightarrow> nat \<Rightarrow> real" where
  "change_at n bc k = max_change (grid_at n bc (Suc k)) (grid_at n bc k)"

definition is_grid :: "nat \<Rightarrow> 'a list list \<Rightarrow> bool" where
  "is_grid n g \<longleftrightarrow> length g = n \<and> (\<forall>i<n. length (g ! i) = n)"

subsection \<open>The solver without the mask test\<close>

text \<open>
  The variant of the solver that the mask claim compares with: the same loop around
  \<open>jacobi_sweep_unmasked\<close>.
\<close>

definition loop_body_unmasked :: "nat \<Rightarrow> boundary_conditions \<Rightarrow> real \<Rightarrow> nat \<Rightarrow> solver_state \<Rightarrow> solver_state" where
  "loop_body_unmasked n bc tolerance iteration s =
     (let u_new = apply_neumann n bc (jacobi_sweep_unmasked n (u s));
          mc = max_change u_new (u s);
          history = convergence_history s @ [mc]
      in if mc < tolerance \<and> iteration > 10
         then \<lparr>u = u_new, converged = True, final_iteration = Some (iteration + 1),
               convergence_history = history\<rparr>
         else \<lparr>u = u_new, converged = converged s, final_iteration = final_iteration s,
               convergence_history = history\<rparr>)"

fun for_loop_unmasked :: "nat \<Rightarrow> boundary_conditions \<Rightarrow> real \<Rightarrow> nat list \<Rightarrow> solver_state \<Rightarrow> solver_state" where
  "for_loop_unmasked n bc tolerance [] s = s"
| "for_loop_unmasked n bc tolerance (iteration # rest) s =
     (let s' = loop_body_unmasked n bc tolerance iteration s
      in if converged s' then s' else for_loop_unmasked n bc tolerance rest s')"

definition solve_unmasked :: "nat \<Rightarrow> boundary_conditions \<Rightarrow> real \<Rightarrow> nat \<Rightarrow> error + solver_state" where
  "solve_unmasked n bc tolerance max_iterations =
     (if n = 0
      then (if etype (bc_top bc) = Dirichlet \<or> etype (bc_bottom bc) = Dirichlet
               \<or> etype (bc_left bc) = Dirichlet \<or> etype (bc_right bc) = Dirichlet
            then Inl IndexError else Inl ValueError)
      else Inr (for_loop_unmasked n bc tolerance [0..<max_iterations]
                  \<lparr>u = initial_grid n bc, converged = False, final_iteration = None,
                   convergence_history = []\<rparr>))"

subsection \<open>Example configurations\<close>

text \<open>All four edges of one kind with one value.\<close>

definition uniform_bc :: "kind \<Rightarrow> real \<Rightarrow> boundary_conditions" where
  "uniform_bc k v =
     \<lparr>bc_top = \<lparr>etype = k, evalue = v\<rparr>, bc_bottom = \<lparr>etype = k, evalue = v\<rparr>,
      bc_left = \<lparr>etype = k, evalue = v\<rparr>, bc_right = \<lparr>etype = k, evalue = v\<rparr>\<rparr>"

section \<open>Cell-level facts about the array operations\<close>

text \<open>
  Each operation keeps the shape of an \<open>n\<close> by \<open>n\<close> array, and the cell \<open>(i, j)\<close> of its result is
  given by an equation.
\<close>

lemma nth_upd: "xs[a := x] ! i = (if i = a \<and> a < length xs then x else xs ! i)"
  by (cases "a < length xs") (simp_all add: nth_list_update list_update_beyond)

lemma is_grid_full: "is_grid n (full n v)"
  by (simp add: is_grid_def full_def)

lemma cell_full: "i < n \<Longrightarrow> j < n \<Longrightarrow> full n v ! i ! j = v"
  by (simp add: full_def)

lemma is_grid_set_row: "is_grid n g \<Longrightarrow> is_grid n (set_row n r v g)"
  by (auto simp: is_grid_def set_row_def nth_upd)

lemma cell_set_row:
  "is_grid n g \<Longrightarrow> i < n \<Longrightarrow> j < n \<Longrightarrow> set_row n r v g ! i ! j = (if i = r then v else g ! i ! j)"
  by (auto simp: is_grid_def set_row_def nth_upd)

lemma is_grid_set_col: "is_grid n g \<Longrightarrow> is_grid n (set_col c v g)"
  by (simp add: is_grid_def set_col_def)

lemma cell_set_col:
  "is_grid n g \<Longrightarrow> i < n \<Longrightarrow> j < n \<Longrightarrow> set_col c v g ! i ! j = (if j = c then v else g ! i ! j)"
  by (auto simp: is_grid_def set_col_def nth_upd)

lemma is_grid_set_cell: "is_grid n g \<Longrightarrow> is_grid n (set_cell a b v g)"
  by (auto simp: is_grid_def set_cell_def nth_upd)

lemma cell_set_cell:
  "is_grid n g \<Longrightarrow> i < n \<Longrightarrow> j < n \<Longrightarrow>
   set_cell a b v g ! i ! j = (if i = a \<and> j = b then v else g ! i ! j)"
  by (auto simp: is_grid_def set_cell_def nth_upd)

lemma is_grid_assign_row_slice: "is_grid n g \<Longrightarrow> is_grid n (assign_row_slice n r f g)"
  by (auto simp: is_grid_def assign_row_slice_def nth_upd)

lemma cell_assign_row_slice:
  "is_grid n g \<Longrightarrow> i < n \<Longrightarrow> j < n \<Longrightarrow>
   assign_row_slice n r f g ! i ! j = (if i = r \<and> 1 \<le> j \<and> j < n - 1 then f j else g ! i ! j)"
  by (auto simp: is_grid_def assign_row_slice_def nth_upd)

lemma is_grid_assign_col_slice: "is_grid n g \<Longrightarrow> is_grid n (assign_col_slice n c f g)"
  by (simp add: is_grid_def assign_col_slice_def)

lemma cell_assign_col_slice:
  "is_grid n g \<Longrightarrow> i < n \<Longrightarrow> j < n \<Longrightarrow>
   assign_col_slice n c f g ! i ! j = (if j = c \<and> 1 \<le> i \<and> i < n - 1 then f i else g ! i ! j)"
  by (auto simp: is_grid_def assign_col_slice_def nth_upd)

lemma is_grid_stamp: "is_grid n g \<Longrightarrow> is_grid n (stamp n bc f g)"
  by (simp add: stamp_def Let_def is_grid_set_row is_grid_set_col)

lemma cell_stamp:
  assumes g: "is_grid n g" and i: "i < n" and j: "j < n"
  shows "stamp n bc f g ! i ! j =
     (if j = n - 1 \<and> etype (bc_right bc) = Dirichlet then f (bc_right bc)
      else if j = 0 \<and> etype (bc_left bc) = Dirichlet then f (bc_left bc)
      else if i = n - 1 \<and> etype (bc_bottom bc) = Dirichlet then f (bc_bottom bc)
      else if i = 0 \<and> etype (bc_top bc) = Dirichlet then f (bc_top bc)
      else g ! i ! j)"
proof -
  define g1 where "g1 = (if etype (bc_top bc) = Dirichlet then set_row n 0 (f (bc_top bc)) g else g)"
  define g2 where "g2 = (if etype (bc_bottom bc) = Dirichlet then set_row n (n - 1) (f (bc_bottom bc)) g1 else g1)"
  define g3 where "g3 = (if etype (bc_left bc) = Dirichlet then set_col 0 (f (bc_left bc)) g2 else g2)"
  define g4 where "g4 = (if etype (bc_right bc) = Dirichlet then set_col (n - 1) (f (bc_right bc)) g3 else g3)"
  have G1: "is_grid n g1" by (simp add: g1_def g is_grid_set_row)
  have G2: "is_grid n g2" by (simp add: g2_def G1 is_grid_set_row)
  have G3: "is_grid n g3" by (simp add: g3_def G2 is_grid_set_col)
  have C1: "g1 ! i ! j = (if i = 0 \<and> etype (bc_top bc) = Dirichlet then f (bc_top bc) else g ! i ! j)"
    using cell_set_row [OF g i j] by (auto simp: g1_def)
  have C2: "g2 ! i ! j = (if i = n - 1 \<and> etype (bc_bottom bc) = Dirichlet then f (bc_bottom bc) else g1 ! i ! j)"
    using cell_set_row [OF G1 i j] by (auto simp: g2_def)
  have C3: "g3 ! i ! j = (if j = 0 \<and> etype (bc_left bc) = Dirichlet then f (bc_left bc) else g2 ! i ! j)"
    using cell_set_col [OF G2 i j] by (auto simp: g3_def)
  have C4: "g4 ! i ! j = (if j = n - 1 \<and> etype (bc_right bc) = Dirichlet then f (bc_right bc) else g3 ! i ! j)"
    using cell_set_col [OF G3 i j] by (auto simp: g4_def)
  have "stamp n bc f g = g4"
    by (simp add: stamp_def Let_def g1_def g2_def g3_def g4_def)
  then show ?thesis
    by (simp only: C4 C3 C2 C1)
qed

lemma is_grid_row_fold:
  "is_grid n g \<Longrightarrow>
   is_grid n (fold (\<lambda>j u_new. if P j then set_cell a j (f j) u_new else u_new) js g)"
  by (induction js arbitrary: g) (simp_all add: is_grid_set_cell)

lemma cell_row_fold:
  "is_grid n g \<Longrightarrow> i < n \<Longrightarrow> j < n \<Longrightarrow>
   fold (\<lambda>j u_new. if P j then set_cell a j (f j) u_new else u_new) js g ! i ! j =
     (if i = a \<and> j \<in> set js \<and> P j then f j else g ! i ! j)"
proof (induction js arbitrary: g)
  case Nil
  then show ?case by simp
next
  case (Cons b js)
  then show ?case
    by (auto simp: is_grid_set_cell cell_set_cell)
qed

lemma is_grid_grid_fold:
  "is_grid n g \<Longrightarrow>
   is_grid n (fold (\<lambda>i. fold (\<lambda>j u_new. if P i j then set_cell i j (f i j) u_new else u_new) js) rs g)"
  by (induction rs arbitrary: g) (simp_all add: is_grid_row_fold)

lemma cell_grid_fold:
  "is_grid n g \<Longrightarrow> i < n \<Longrightarrow> j < n \<Longrightarrow>
   fold (\<lambda>i. fold (\<lambda>j u_new. if P i j then set_cell i j (f i j) u_new else u_new) js) rs g ! i ! j =
     (if i \<in> set rs \<and> j \<in> set js \<and> P i j then f i j else g ! i ! j)"
proof (induction rs arbitrary: g)
  case Nil
  then show ?case by simp
next
  case (Cons a rs)
  then show ?case
    by (auto simp: is_grid_row_fold cell_row_fold)
qed

lemma is_grid_jacobi_sweep: "is_grid n g \<Longrightarrow> is_grid n (jacobi_sweep n bmask g)"
  unfolding jacobi_sweep_def by (rule is_grid_grid_fold)

lemma cell_jacobi_sweep:
  "is_grid n g \<Longrightarrow> i < n \<Longrightarrow> j < n \<Longrightarrow>
   jacobi_sweep n bmask g ! i ! j =
     (if 1 \<le> i \<and> i < n - 1 \<and> 1 \<le> j \<and> j < n - 1 \<and> \<not> bmask ! i ! j
      then jacobi_cell g i j else g ! i ! j)"
  unfolding jacobi_sweep_def by (simp add: cell_grid_fold)

lemma is_grid_apply_neumann: "is_grid n g \<Longrightarrow> is_grid n (apply_neumann n bc g)"
  by (simp add: apply_neumann_def Let_def is_grid_assign_row_slice is_grid_assign_col_slice)

lemma cell_apply_neumann:
  assumes g: "is_grid n g" and i: "i < n" and j: "j < n"
  shows "apply_neumann n bc g ! i ! j =
     (if 1 \<le> i \<and> i < n - 1 \<and> j = n - 1 \<and> etype (bc_right bc) = Neumann
        then g ! i ! (n - 2) - evalue (bc_right bc)
      else if 1 \<le> i \<and> i < n - 1 \<and> j = 0 \<and> etype (bc_left bc) = Neumann
        then g ! i ! 1 + evalue (bc_left bc)
      else if 1 \<le> j \<and> j < n - 1 \<and> i = n - 1 \<and> etype (bc_bottom bc) = Neumann
        then g ! (n - 2) ! j - evalue (bc_bottom bc)
      else if 1 \<le> j \<and> j < n - 1 \<and> i = 0 \<and> etype (bc_top bc) = Neumann
        then g ! 1 ! j + evalue (bc_top bc)
      else g ! i ! j)"
proof -
  define g1 where "g1 = (if etype (bc_top bc) = Neumann
     then assign_row_slice n 0 (\<lambda>j. g ! 1 ! j + evalue (bc_top bc)) g else g)"
  define g2 where "g2 = (if etype (bc_bottom bc) = Neumann
     then assign_row_slice n (n - 1) (\<lambda>j. g1 ! (n - 2) ! j - evalue (bc_bottom bc)) g1 else g1)"
  define g3 where "g3 = (if etype (bc_left bc) = Neumann
     then assign_col_slice n 0 (\<lambda>i. g2 ! i ! 1 + evalue (bc_left bc)) g2 else g2)"
  define g4 where "g4 = (if etype (bc_right bc) = Neumann
     then assign_col_slice n (n - 1) (\<lambda>i. g3 ! i ! (n - 2) - evalue (bc_right bc)) g3 else g3)"
  have G1: "is_grid n g1" by (simp add: g1_def g is_grid_assign_row_slice)
  have G2: "is_grid n g2" by (simp add: g2_def G1 is_grid_assign_row_slice)
  have G3: "is_grid n g3" by (simp add: g3_def G2 is_grid_assign_col_slice)
  have C1: "g1 ! a ! b = (if a = 0 \<and> 1 \<le> b \<and> b < n - 1 \<and> etype (bc_top bc) = Neumann
      then g ! 1 ! b + evalue (bc_top bc) else g ! a ! b)" if "a < n" "b < n" for a b
    using cell_assign_row_slice [OF g that] by (auto simp: g1_def)
  have C2: "g2 ! a ! b = (if a = n - 1 \<and> 1 \<le> b \<and> b < n - 1 \<and> etype (bc_bottom bc) = Neumann
      then g1 ! (n - 2) ! b - evalue (bc_bottom bc) else g1 ! a ! b)" if "a < n" "b < n" for a b
    using cell_assign_row_slice [OF G1 that] by (auto simp: g2_def)
  have C3: "g3 ! a ! b = (if b = 0 \<and> 1 \<le> a \<and> a < n - 1 \<and> etype (bc_left bc) = Neumann
      then g2 ! a ! 1 + evalue (bc_left bc) else g2 ! a ! b)" if "a < n" "b < n" for a b
    using cell_assign_col_slice [OF G2 that] by (auto simp: g3_def)
  have C4: "g4 ! a ! b = (if b = n - 1 \<and> 1 \<le> a \<and> a < n - 1 \<and> etype (bc_right bc) = Neumann
      then g3 ! a ! (n - 2) - evalue (bc_right bc) else g3 ! a ! b)" if "a < n" "b < n" for a b
    using cell_assign_col_slice [OF G3 that] by (auto simp: g4_def)
  have eq: "apply_neumann n bc g = g4"
    by (simp add: apply_neumann_def Let_def g1_def g2_def g3_def g4_def)
  have low: "g1 ! (n - 2) ! b = g ! (n - 2) ! b" if "1 \<le> b" "b < n - 1" for b
    using that C1 [of "n - 2" b] by auto
  have mid: "g2 ! a ! 1 = g ! a ! 1" if "1 \<le> a" "a < n - 1" for a
    using that C2 [of a 1] C1 [of a 1] by auto
  have far: "g3 ! a ! (n - 2) = g ! a ! (n - 2)" if "1 \<le> a" "a < n - 1" for a
    using that C3 [of a "n - 2"] C2 [of a "n - 2"] C1 [of a "n - 2"] by auto
  show ?thesis
    unfolding eq
    using i j C4 [OF i j] C3 [OF i j] C2 [OF i j] C1 [OF i j] low [of j] mid [of i] far [of i]
    by auto
qed

section \<open>The grids of a run, cell by cell\<close>

lemma is_grid_initial_grid: "is_grid n (initial_grid n bc)"
  by (simp add: initial_grid_def is_grid_stamp is_grid_full)

lemma is_grid_boundary_mask: "is_grid n (boundary_mask n bc)"
  by (simp add: boundary_mask_def is_grid_stamp is_grid_full)

lemma cell_initial_grid:
  "i < n \<Longrightarrow> j < n \<Longrightarrow>
   initial_grid n bc ! i ! j =
     (if j = n - 1 \<and> etype (bc_right bc) = Dirichlet then evalue (bc_right bc)
      else if j = 0 \<and> etype (bc_left bc) = Dirichlet then evalue (bc_left bc)
      else if i = n - 1 \<and> etype (bc_bottom bc) = Dirichlet then evalue (bc_bottom bc)
      else if i = 0 \<and> etype (bc_top bc) = Dirichlet then evalue (bc_top bc)
      else 0)"
  by (simp add: initial_grid_def cell_stamp [OF is_grid_full] cell_full)

lemma cell_boundary_mask:
  "i < n \<Longrightarrow> j < n \<Longrightarrow>
   boundary_mask n bc ! i ! j \<longleftrightarrow>
     j = n - 1 \<and> etype (bc_right bc) = Dirichlet \<or> j = 0 \<and> etype (bc_left bc) = Dirichlet \<or>
     i = n - 1 \<and> etype (bc_bottom bc) = Dirichlet \<or> i = 0 \<and> etype (bc_top bc) = Dirichlet"
  by (simp add: boundary_mask_def cell_stamp [OF is_grid_full] cell_full)

lemma interior_not_masked:
  "1 \<le> i \<Longrightarrow> i < n - 1 \<Longrightarrow> 1 \<le> j \<Longrightarrow> j < n - 1 \<Longrightarrow> \<not> boundary_mask n bc ! i ! j"
  by (simp add: cell_boundary_mask)

lemma is_grid_sweep: "is_grid n g \<Longrightarrow> is_grid n (sweep n bc bmask g)"
  by (simp add: sweep_def is_grid_apply_neumann is_grid_jacobi_sweep)

lemma grid_at_Suc: "grid_at n bc (Suc k) = sweep n bc (boundary_mask n bc) (grid_at n bc k)"
  by (simp add: grid_at_def)

lemma is_grid_grid_at: "is_grid n (grid_at n bc k)"
  by (induction k) (simp_all add: grid_at_Suc is_grid_sweep, simp add: grid_at_def is_grid_initial_grid)

lemma cell_sweep_interior:
  assumes g: "is_grid n g" and "1 \<le> i" "i < n - 1" "1 \<le> j" "j < n - 1"
  shows "sweep n bc (boundary_mask n bc) g ! i ! j = jacobi_cell g i j"
proof -
  have i: "i < n" and j: "j < n" using assms by auto
  have "sweep n bc (boundary_mask n bc) g ! i ! j = jacobi_sweep n (boundary_mask n bc) g ! i ! j"
    unfolding sweep_def
    using assms cell_apply_neumann [OF is_grid_jacobi_sweep [OF g] i j] by auto
  also have "\<dots> = jacobi_cell g i j"
    using assms cell_jacobi_sweep [OF g i j] interior_not_masked [of i n j bc] by auto
  finally show ?thesis .
qed

lemma cell_sweep_masked:
  assumes g: "is_grid n g" and i: "i < n" and j: "j < n" and m: "boundary_mask n bc ! i ! j"
  shows "sweep n bc (boundary_mask n bc) g ! i ! j = g ! i ! j"
proof -
  have "sweep n bc (boundary_mask n bc) g ! i ! j = jacobi_sweep n (boundary_mask n bc) g ! i ! j"
    unfolding sweep_def
    using m i j cell_apply_neumann [OF is_grid_jacobi_sweep [OF g] i j] cell_boundary_mask [OF i j, of bc]
    by (auto split: if_splits)
  also have "\<dots> = g ! i ! j"
    using m cell_jacobi_sweep [OF g i j] by auto
  finally show ?thesis .
qed

lemma cell_sweep_corner:
  assumes g: "is_grid n g" and i: "i < n" and j: "j < n"
    and "i = 0 \<or> i = n - 1" and "j = 0 \<or> j = n - 1"
  shows "sweep n bc bmask g ! i ! j = g ! i ! j"
proof -
  have "sweep n bc bmask g ! i ! j = jacobi_sweep n bmask g ! i ! j"
    unfolding sweep_def
    using assms cell_apply_neumann [OF is_grid_jacobi_sweep [OF g] i j] by auto
  also have "\<dots> = g ! i ! j"
    using assms cell_jacobi_sweep [OF g i j] by auto
  finally show ?thesis .
qed

lemma grid_at_masked:
  "i < n \<Longrightarrow> j < n \<Longrightarrow> boundary_mask n bc ! i ! j \<Longrightarrow>
   grid_at n bc k ! i ! j = initial_grid n bc ! i ! j"
  by (induction k) (simp_all add: grid_at_Suc cell_sweep_masked is_grid_grid_at, simp add: grid_at_def)

lemma grid_at_corner:
  "i < n \<Longrightarrow> j < n \<Longrightarrow> i = 0 \<or> i = n - 1 \<Longrightarrow> j = 0 \<or> j = n - 1 \<Longrightarrow>
   grid_at n bc k ! i ! j = initial_grid n bc ! i ! j"
  by (induction k) (simp_all add: grid_at_Suc cell_sweep_corner is_grid_grid_at, simp add: grid_at_def)

section \<open>The largest change\<close>

lemma np_max_eq: "xs \<noteq> [] \<Longrightarrow> np_max xs = Max (set xs)"
proof (cases xs)
  case Nil
  assume "xs \<noteq> []"
  with Nil show ?thesis by simp
next
  case (Cons x ys)
  then show ?thesis using Max.set_eq_fold [of x ys] by simp
qed

lemma abs_diff_member:
  assumes a: "is_grid n a" and b: "is_grid n b" and i: "i < n" and j: "j < n"
  shows "\<bar>a ! i ! j - b ! i ! j\<bar> \<in> set (abs_diff a b)"
proof -
  have rows: "(a ! i, b ! i) \<in> set (zip a b)"
    using a b i by (auto simp: in_set_zip is_grid_def)
  have cells: "(a ! i ! j, b ! i ! j) \<in> set (zip (a ! i) (b ! i))"
    using a b i j by (auto simp: in_set_zip is_grid_def)
  have "\<bar>a ! i ! j - b ! i ! j\<bar> \<in> set (map2 (\<lambda>x y. \<bar>x - y\<bar>) (a ! i) (b ! i))"
    using cells by force
  moreover have "map2 (\<lambda>x y. \<bar>x - y\<bar>) (a ! i) (b ! i) \<in> set (map2 (\<lambda>r' r. map2 (\<lambda>x y. \<bar>x - y\<bar>) r' r) a b)"
    using rows by force
  ultimately show ?thesis
    unfolding abs_diff_def set_concat by blast
qed

lemma abs_diff_elements:
  assumes a: "is_grid n a" and b: "is_grid n b" and x: "x \<in> set (abs_diff a b)"
  shows "\<exists>i j. i < n \<and> j < n \<and> x = \<bar>a ! i ! j - b ! i ! j\<bar>"
proof -
  from x obtain l where l: "l \<in> set (map2 (\<lambda>r' r. map2 (\<lambda>x y. \<bar>x - y\<bar>) r' r) a b)"
    and xl: "x \<in> set l"
    unfolding abs_diff_def set_concat by blast
  from l obtain r' r where rows: "(r', r) \<in> set (zip a b)"
    and lr: "l = map2 (\<lambda>x y. \<bar>x - y\<bar>) r' r"
    by auto
  have xr: "x \<in> set (map2 (\<lambda>x y. \<bar>x - y\<bar>) r' r)"
    using xl lr by simp
  from rows obtain i where i: "i < n" "r' = a ! i" "r = b ! i"
    using a b by (auto simp: in_set_zip is_grid_def)
  from xr obtain p q where cells: "(p, q) \<in> set (zip r' r)" and xpq: "x = \<bar>p - q\<bar>"
    by auto
  from cells obtain j where j: "j < n" "p = r' ! j" "q = r ! j"
    using a b i by (auto simp: in_set_zip is_grid_def)
  show ?thesis using i j xpq by blast
qed

lemma abs_diff_nonempty: "is_grid n a \<Longrightarrow> is_grid n b \<Longrightarrow> 0 < n \<Longrightarrow> abs_diff a b \<noteq> []"
  using abs_diff_member [of n a b 0 0] by auto

lemma max_change_ge:
  assumes "is_grid n a" "is_grid n b" "i < n" "j < n"
  shows "\<bar>a ! i ! j - b ! i ! j\<bar> \<le> max_change a b"
proof -
  have m: "\<bar>a ! i ! j - b ! i ! j\<bar> \<in> set (abs_diff a b)"
    using assms by (rule abs_diff_member)
  then have "abs_diff a b \<noteq> []" by auto
  then have "max_change a b = Max (set (abs_diff a b))"
    by (simp add: max_change_def np_max_eq)
  then show ?thesis using m by simp
qed

lemma max_change_nonneg: "is_grid n a \<Longrightarrow> is_grid n b \<Longrightarrow> 0 < n \<Longrightarrow> 0 \<le> max_change a b"
  using max_change_ge [of n a b 0 0] by linarith

lemma max_change_attained:
  assumes a: "is_grid n a" and b: "is_grid n b" and n: "0 < n"
  shows "\<exists>i j. i < n \<and> j < n \<and> max_change a b = \<bar>a ! i ! j - b ! i ! j\<bar>"
proof -
  have ne: "abs_diff a b \<noteq> []" using assms by (rule abs_diff_nonempty)
  then have "max_change a b = Max (set (abs_diff a b))"
    by (simp add: max_change_def np_max_eq)
  moreover have "Max (set (abs_diff a b)) \<in> set (abs_diff a b)"
    using ne by (intro Max_in) auto
  ultimately show ?thesis using abs_diff_elements [OF a b] by auto
qed

lemma max_change_same: "is_grid n a \<Longrightarrow> 0 < n \<Longrightarrow> max_change a a = 0"
  using max_change_attained [of n a a] by auto

section \<open>What the loop computes\<close>

text \<open>
  The loop started at index \<open>k\<close> on the grid of iteration \<open>k\<close> either finds no index below
  \<open>max_iterations\<close> that passes the convergence test and runs to the end, or stops at the
  first one that does.
\<close>

lemma loop_body_at:
  assumes "u s = grid_at n bc k"
  shows "loop_body n bc (boundary_mask n bc) tol it s =
     (if change_at n bc k < tol \<and> it > 10
      then \<lparr>u = grid_at n bc (Suc k), converged = True, final_iteration = Some (it + 1),
            convergence_history = convergence_history s @ [change_at n bc k]\<rparr>
      else \<lparr>u = grid_at n bc (Suc k), converged = converged s, final_iteration = final_iteration s,
            convergence_history = convergence_history s @ [change_at n bc k]\<rparr>)"
  using assms by (simp add: loop_body_def Let_def change_at_def grid_at_Suc)

lemma for_loop_no_hit:
  assumes "\<forall>it. k \<le> it \<and> it < mi \<longrightarrow> \<not> (change_at n bc it < tol \<and> 10 < it)"
    and "k \<le> mi" and "u s = grid_at n bc k" and "\<not> converged s"
  shows "for_loop n bc (boundary_mask n bc) tol [k..<mi] s =
     \<lparr>u = grid_at n bc mi, converged = False, final_iteration = final_iteration s,
      convergence_history = convergence_history s @ map (change_at n bc) [k..<mi]\<rparr>"
  using assms
proof (induction "mi - k" arbitrary: k s)
  case 0
  then show ?case by simp
next
  case (Suc d)
  then have lt: "k < mi" by simp
  let ?s' = "loop_body n bc (boundary_mask n bc) tol k s"
  have nohit: "\<not> (change_at n bc k < tol \<and> 10 < k)"
    using Suc.prems(1) lt by simp
  have s': "?s' = \<lparr>u = grid_at n bc (Suc k), converged = False, final_iteration = final_iteration s,
            convergence_history = convergence_history s @ [change_at n bc k]\<rparr>"
    using loop_body_at [OF Suc.prems(3), of tol k] nohit Suc.prems(4) by auto
  have rest: "for_loop n bc (boundary_mask n bc) tol [Suc k..<mi] ?s' =
     \<lparr>u = grid_at n bc mi, converged = False, final_iteration = final_iteration ?s',
      convergence_history = convergence_history ?s' @ map (change_at n bc) [Suc k..<mi]\<rparr>"
  proof (rule Suc.hyps(1))
    show "d = mi - Suc k" using Suc.hyps(2) by simp
    show "\<forall>it. Suc k \<le> it \<and> it < mi \<longrightarrow> \<not> (change_at n bc it < tol \<and> 10 < it)"
      using Suc.prems(1) by simp
    show "Suc k \<le> mi" using lt by simp
    show "u ?s' = grid_at n bc (Suc k)" by (simp add: s')
    show "\<not> converged ?s'" by (simp add: s')
  qed
  have "for_loop n bc (boundary_mask n bc) tol [k..<mi] s =
        for_loop n bc (boundary_mask n bc) tol [Suc k..<mi] ?s'"
    using lt s' by (simp add: upt_conv_Cons Let_def)
  then show ?case
    using rest lt by (simp add: s' upt_conv_Cons)
qed

lemma for_loop_hit:
  assumes "k \<le> it0" and "it0 < mi" and "change_at n bc it0 < tol \<and> 10 < it0"
    and "\<forall>it. k \<le> it \<and> it < it0 \<longrightarrow> \<not> (change_at n bc it < tol \<and> 10 < it)"
    and "u s = grid_at n bc k" and "\<not> converged s"
  shows "for_loop n bc (boundary_mask n bc) tol [k..<mi] s =
     \<lparr>u = grid_at n bc (Suc it0), converged = True, final_iteration = Some (it0 + 1),
      convergence_history = convergence_history s @ map (change_at n bc) [k..<Suc it0]\<rparr>"
  using assms
proof (induction "it0 - k" arbitrary: k s)
  case 0
  then have k: "k = it0" by simp
  have lt: "k < mi" using 0 by simp
  let ?s' = "loop_body n bc (boundary_mask n bc) tol k s"
  have s': "?s' = \<lparr>u = grid_at n bc (Suc k), converged = True, final_iteration = Some (k + 1),
            convergence_history = convergence_history s @ [change_at n bc k]\<rparr>"
    using loop_body_at [OF "0.prems"(5), of tol k] "0.prems"(3) k by auto
  have "for_loop n bc (boundary_mask n bc) tol [k..<mi] s = ?s'"
    using lt s' by (simp add: upt_conv_Cons [of k mi] Let_def)
  then show ?case
    using s' k by simp
next
  case (Suc d)
  then have lt: "k < it0" by simp
  then have ltm: "k < mi" using Suc.prems(2) by simp
  let ?s' = "loop_body n bc (boundary_mask n bc) tol k s"
  have nohit: "\<not> (change_at n bc k < tol \<and> 10 < k)"
    using Suc.prems(4) lt by simp
  have s': "?s' = \<lparr>u = grid_at n bc (Suc k), converged = False, final_iteration = final_iteration s,
            convergence_history = convergence_history s @ [change_at n bc k]\<rparr>"
    using loop_body_at [OF Suc.prems(5), of tol k] nohit Suc.prems(6) by auto
  have rest: "for_loop n bc (boundary_mask n bc) tol [Suc k..<mi] ?s' =
     \<lparr>u = grid_at n bc (Suc it0), converged = True, final_iteration = Some (it0 + 1),
      convergence_history = convergence_history ?s' @ map (change_at n bc) [Suc k..<Suc it0]\<rparr>"
  proof (rule Suc.hyps(1))
    show "d = it0 - Suc k" using Suc.hyps(2) by simp
    show "Suc k \<le> it0" using lt by simp
    show "it0 < mi" by (rule Suc.prems(2))
    show "change_at n bc it0 < tol \<and> 10 < it0" by (rule Suc.prems(3))
    show "\<forall>it. Suc k \<le> it \<and> it < it0 \<longrightarrow> \<not> (change_at n bc it < tol \<and> 10 < it)"
      using Suc.prems(4) by simp
    show "u ?s' = grid_at n bc (Suc k)" by (simp add: s')
    show "\<not> converged ?s'" by (simp add: s')
  qed
  have "for_loop n bc (boundary_mask n bc) tol [k..<mi] s =
        for_loop n bc (boundary_mask n bc) tol [Suc k..<mi] ?s'"
    using ltm s' by (simp add: upt_conv_Cons [of k mi] Let_def)
  moreover have "map (change_at n bc) [k..<Suc it0] =
      change_at n bc k # map (change_at n bc) [Suc k..<Suc it0]"
    using lt upt_conv_Cons [of k "Suc it0"] by (simp del: upt_Suc)
  ultimately show ?case
    using rest by (simp add: s' del: upt_Suc)
qed

text \<open>The two ways a run on a non-empty grid ends.\<close>

lemma solve_cases:
  assumes n: "0 < n"
  shows "(\<exists>it0<mi. (change_at n bc it0 < tol \<and> 10 < it0)
            \<and> (\<forall>it<it0. \<not> (change_at n bc it < tol \<and> 10 < it))
            \<and> solve n bc tol mi =
                Inr \<lparr>u = grid_at n bc (Suc it0), converged = True, final_iteration = Some (it0 + 1),
                     convergence_history = map (change_at n bc) [0..<Suc it0]\<rparr>)
       \<or> ((\<forall>it<mi. \<not> (change_at n bc it < tol \<and> 10 < it))
            \<and> solve n bc tol mi =
                Inr \<lparr>u = grid_at n bc mi, converged = False, final_iteration = None,
                     convergence_history = map (change_at n bc) [0..<mi]\<rparr>)"
proof -
  let ?s0 = "\<lparr>u = initial_grid n bc, converged = False, final_iteration = None,
              convergence_history = []\<rparr>"
  let ?hit = "\<lambda>it. it < mi \<and> change_at n bc it < tol \<and> 10 < it"
  have u0: "u ?s0 = grid_at n bc 0" by (simp add: grid_at_def)
  have c0: "\<not> converged ?s0" by simp
  have sol: "solve n bc tol mi = Inr (for_loop n bc (boundary_mask n bc) tol [0..<mi] ?s0)"
    using n by (simp add: solve_def)
  show ?thesis
  proof (cases "\<exists>it. ?hit it")
    case True
    then obtain it0 where hit: "?hit it0" and least: "\<forall>it<it0. \<not> ?hit it"
      using exists_least_iff [of ?hit] by blast
    have before: "\<forall>it. 0 \<le> it \<and> it < it0 \<longrightarrow> \<not> (change_at n bc it < tol \<and> 10 < it)"
      using least hit by auto
    have "for_loop n bc (boundary_mask n bc) tol [0..<mi] ?s0 =
        \<lparr>u = grid_at n bc (Suc it0), converged = True, final_iteration = Some (it0 + 1),
         convergence_history = convergence_history ?s0 @ map (change_at n bc) [0..<Suc it0]\<rparr>"
      using hit before u0 c0 by (intro for_loop_hit) auto
    then show ?thesis
      using sol hit before by (intro disjI1) auto
  next
    case False
    then have none: "\<forall>it. 0 \<le> it \<and> it < mi \<longrightarrow> \<not> (change_at n bc it < tol \<and> 10 < it)"
      by auto
    have "for_loop n bc (boundary_mask n bc) tol [0..<mi] ?s0 =
        \<lparr>u = grid_at n bc mi, converged = False, final_iteration = final_iteration ?s0,
         convergence_history = convergence_history ?s0 @ map (change_at n bc) [0..<mi]\<rparr>"
      using none u0 c0 by (intro for_loop_no_hit) auto
    then show ?thesis
      using sol none by (intro disjI2) auto
  qed
qed

lemma solve_grid:
  assumes "solve n bc tol mi = Inr s"
  shows "\<exists>k\<le>mi. u s = grid_at n bc k"
proof -
  have n: "0 < n" using assms by (auto simp: solve_def split: if_splits)
  from solve_cases [OF n, of mi bc tol] show ?thesis
  proof (elim disjE exE conjE)
    fix it0
    assume "it0 < mi" and "solve n bc tol mi =
        Inr \<lparr>u = grid_at n bc (Suc it0), converged = True, final_iteration = Some (it0 + 1),
             convergence_history = map (change_at n bc) [0..<Suc it0]\<rparr>"
    then have "Suc it0 \<le> mi" "u s = grid_at n bc (Suc it0)" using assms by auto
    then show ?thesis by blast
  next
    assume "solve n bc tol mi =
        Inr \<lparr>u = grid_at n bc mi, converged = False, final_iteration = None,
             convergence_history = map (change_at n bc) [0..<mi]\<rparr>"
    then have "u s = grid_at n bc mi" using assms by auto
    then show ?thesis by blast
  qed
qed

lemma converged_loop_body:
  "converged (loop_body n bc bmask tol it s) \<longleftrightarrow>
     converged s \<or> (max_change (sweep n bc bmask (u s)) (u s) < tol \<and> it > 10)"
  by (auto simp: loop_body_def Let_def)

lemma solve_result:
  assumes "solve n bc tol mi = Inr s"
  shows "(\<exists>it<mi. (change_at n bc it < tol \<and> 10 < it)
            \<and> (\<forall>it'<it. \<not> (change_at n bc it' < tol \<and> 10 < it'))
            \<and> s = \<lparr>u = grid_at n bc (Suc it), converged = True, final_iteration = Some (it + 1),
                    convergence_history = map (change_at n bc) [0..<Suc it]\<rparr>)
       \<or> ((\<forall>it<mi. \<not> (change_at n bc it < tol \<and> 10 < it))
            \<and> s = \<lparr>u = grid_at n bc mi, converged = False, final_iteration = None,
                    convergence_history = map (change_at n bc) [0..<mi]\<rparr>)"
proof -
  have n: "0 < n" using assms by (auto simp: solve_def split: if_splits)
  show ?thesis
    using solve_cases [OF n, of mi bc tol] assms by auto
qed

section \<open>The sweep without the mask test\<close>

lemma jacobi_sweep_unmasked_eq:
  "jacobi_sweep n (boundary_mask n bc) g = jacobi_sweep_unmasked n g"
  unfolding jacobi_sweep_def jacobi_sweep_unmasked_def
proof (rule fold_cong [OF refl refl])
  fix i assume i: "i \<in> set [1..<n - 1]"
  show "fold (\<lambda>j u_new. if \<not> boundary_mask n bc ! i ! j
                               then set_cell i j (jacobi_cell g i j) u_new
                               else u_new) [1..<n - 1]
      = fold (\<lambda>j u_new. set_cell i j (jacobi_cell g i j) u_new) [1..<n - 1]"
  proof (rule ext, rule fold_cong [OF refl refl])
    fix j assume "j \<in> set [1..<n - 1]"
    then have "\<not> boundary_mask n bc ! i ! j"
      using i by (intro interior_not_masked) auto
    then show "(\<lambda>u_new. if \<not> boundary_mask n bc ! i ! j
                               then set_cell i j (jacobi_cell g i j) u_new
                               else u_new) = set_cell i j (jacobi_cell g i j)"
      by simp
  qed
qed

lemma loop_body_unmasked_eq:
  "loop_body n bc (boundary_mask n bc) tol it s = loop_body_unmasked n bc tol it s"
  by (simp add: loop_body_def loop_body_unmasked_def sweep_def jacobi_sweep_unmasked_eq)

lemma for_loop_unmasked_eq:
  "for_loop n bc (boundary_mask n bc) tol its s = for_loop_unmasked n bc tol its s"
  by (induction its arbitrary: s) (simp_all add: loop_body_unmasked_eq Let_def)

section \<open>Evaluating a run\<close>

text \<open>The defining equations that unfold a run on a concrete configuration.\<close>

lemmas run_defs = solve_def uniform_bc_def initial_grid_def boundary_mask_def stamp_def full_def
  set_row_def set_col_def loop_body_def sweep_def jacobi_sweep_def jacobi_cell_def
  apply_neumann_def assign_row_slice_def assign_col_slice_def set_cell_def max_change_def
  abs_diff_def grid_at_def change_at_def Let_def eval_nat_numeral

lemma u_loop_body: "u (loop_body n bc bmask tol it s) = sweep n bc bmask (u s)"
  by (simp add: loop_body_def Let_def)

section \<open>Uniform fields\<close>

lemma change_at_nonneg: "0 < n \<Longrightarrow> 0 \<le> change_at n bc k"
  unfolding change_at_def by (rule max_change_nonneg [OF is_grid_grid_at is_grid_grid_at])

lemma grid_eqI:
  assumes a: "is_grid n a" and b: "is_grid n b"
    and cells: "\<And>i j. i < n \<Longrightarrow> j < n \<Longrightarrow> a ! i ! j = b ! i ! j"
  shows "a = b"
proof (rule nth_equalityI)
  show "length a = length b" using a b by (simp add: is_grid_def)
next
  fix i assume "i < length a"
  then have i: "i < n" using a by (simp add: is_grid_def)
  show "a ! i = b ! i"
  proof (rule nth_equalityI)
    show "length (a ! i) = length (b ! i)" using a b i by (simp add: is_grid_def)
  next
    fix j assume "j < length (a ! i)"
    then have "j < n" using a i by (simp add: is_grid_def)
    then show "a ! i ! j = b ! i ! j" using i by (rule cells [rotated])
  qed
qed

lemma sweep_uniform_fixed:
  "sweep n (uniform_bc Dirichlet V) (boundary_mask n (uniform_bc Dirichlet V)) (full n V) = full n V"
proof (rule grid_eqI [of n])
  show g: "is_grid n (full n V)" by (rule is_grid_full)
  show "is_grid n (sweep n (uniform_bc Dirichlet V) (boundary_mask n (uniform_bc Dirichlet V)) (full n V))"
    using g by (rule is_grid_sweep)
  fix i j assume i: "i < n" and j: "j < n"
  show "sweep n (uniform_bc Dirichlet V) (boundary_mask n (uniform_bc Dirichlet V)) (full n V) ! i ! j
        = full n V ! i ! j"
  proof (cases "1 \<le> i \<and> i < n - 1 \<and> 1 \<le> j \<and> j < n - 1")
    case True
    then have "sweep n (uniform_bc Dirichlet V) (boundary_mask n (uniform_bc Dirichlet V)) (full n V) ! i ! j
        = jacobi_cell (full n V) i j"
      using g by (simp add: cell_sweep_interior)
    also have "\<dots> = V"
    proof -
      have "i + 1 < n" "i - 1 < n" "j + 1 < n" "j - 1 < n" using True by auto
      then have "full n V ! (i + 1) ! j = V" "full n V ! (i - 1) ! j = V"
        "full n V ! i ! (j + 1) = V" "full n V ! i ! (j - 1) = V"
        using i j by (simp_all only: cell_full)
      then show ?thesis by (simp only: jacobi_cell_def) simp
    qed
    finally show ?thesis using i j by (simp add: cell_full)
  next
    case False
    then have "boundary_mask n (uniform_bc Dirichlet V) ! i ! j"
      using i j by (auto simp: cell_boundary_mask uniform_bc_def)
    then show ?thesis using g i j by (simp add: cell_sweep_masked)
  qed
qed

lemma initial_grid_uniform_zero: "initial_grid n (uniform_bc Dirichlet 0) = full n 0"
  by (rule grid_eqI [of n]) (simp_all add: is_grid_initial_grid is_grid_full cell_initial_grid cell_full uniform_bc_def)

section \<open>The claims\<close>

text \<open>
  C1. In every iteration the loop body can run, that is for every state whose grid is \<open>n\<close> by
  \<open>n\<close>: an interior cell \<open>(i, j)\<close>, \<open>1 \<le> i, j \<le> n - 2\<close>, that the mask does not mark gets in the
  new grid the arithmetic mean of its four neighbours in the grid the iteration started
  with, and a cell that the mask marks keeps the value it had.
\<close>

theorem jacobi_update:
  assumes "is_grid n (u s)"
  shows "(1 \<le> i \<and> i \<le> n - 2 \<and> 1 \<le> j \<and> j \<le> n - 2 \<and> \<not> boundary_mask n bc ! i ! j \<longrightarrow>
            u (loop_body n bc (boundary_mask n bc) tol it s) ! i ! j =
              (u s ! (i + 1) ! j + u s ! (i - 1) ! j + u s ! i ! (j + 1) + u s ! i ! (j - 1)) / 4)
       \<and> (i < n \<and> j < n \<and> boundary_mask n bc ! i ! j \<longrightarrow>
            u (loop_body n bc (boundary_mask n bc) tol it s) ! i ! j = u s ! i ! j)"
proof (intro conjI impI)
  assume h: "1 \<le> i \<and> i \<le> n - 2 \<and> 1 \<le> j \<and> j \<le> n - 2 \<and> \<not> boundary_mask n bc ! i ! j"
  then have "1 \<le> i" "i < n - 1" "1 \<le> j" "j < n - 1" by auto
  then have "sweep n bc (boundary_mask n bc) (u s) ! i ! j = jacobi_cell (u s) i j"
    using assms by (simp add: cell_sweep_interior)
  then show "u (loop_body n bc (boundary_mask n bc) tol it s) ! i ! j =
      (u s ! (i + 1) ! j + u s ! (i - 1) ! j + u s ! i ! (j + 1) + u s ! i ! (j - 1)) / 4"
    by (simp add: u_loop_body jacobi_cell_def)
next
  assume "i < n \<and> j < n \<and> boundary_mask n bc ! i ! j"
  then show "u (loop_body n bc (boundary_mask n bc) tol it s) ! i ! j = u s ! i ! j"
    using assms by (simp add: u_loop_body cell_sweep_masked)
qed

text \<open>The first iteration on the 3 by 3 grid with every edge fixed at 100.\<close>

theorem jacobi_update_witness:
  "is_grid 3 [[100, 100, 100], [100, 0, 100], [100, 100, 100 :: real]]
   \<and> \<not> boundary_mask 3 (uniform_bc Dirichlet 100) ! 1 ! 1
   \<and> boundary_mask 3 (uniform_bc Dirichlet 100) ! 0 ! 1
   \<and> u (loop_body 3 (uniform_bc Dirichlet 100) (boundary_mask 3 (uniform_bc Dirichlet 100)) (1 / 10000) 0
          \<lparr>u = [[100, 100, 100], [100, 0, 100], [100, 100, 100]], converged = False,
           final_iteration = None, convergence_history = []\<rparr>) ! 1 ! 1 = 100
   \<and> u (loop_body 3 (uniform_bc Dirichlet 100) (boundary_mask 3 (uniform_bc Dirichlet 100)) (1 / 10000) 0
          \<lparr>u = [[100, 100, 100], [100, 0, 100], [100, 100, 100]], converged = False,
           final_iteration = None, convergence_history = []\<rparr>) ! 0 ! 1 = 100"
proof -
  let ?s = "\<lparr>u = [[100, 100, 100], [100, 0, 100], [100, 100, 100 :: real]], converged = False,
           final_iteration = None, convergence_history = []\<rparr>"
  have g: "is_grid 3 (u ?s)"
    by (simp add: is_grid_def eval_nat_numeral less_Suc_eq)
  have m: "\<not> boundary_mask 3 (uniform_bc Dirichlet 100) ! 1 ! 1"
    by (simp add: run_defs)
  have m': "boundary_mask 3 (uniform_bc Dirichlet 100) ! 0 ! 1"
    by (simp add: run_defs)
  show ?thesis
    using g m m'
      jacobi_update [OF g, of 1 1 "uniform_bc Dirichlet 100" "1 / 10000" 0]
      jacobi_update [OF g, of 0 1 "uniform_bc Dirichlet 100" "1 / 10000" 0]
    by simp
qed

text \<open>
  C3. A cell that the mask marks holds its stamped value at every point of the run: in the
  grid after any number \<open>k\<close> of iterations, in the new grid between the interior update and
  the Neumann updates, and in the grid that \<open>solve\<close> ends with. The stamped value is the value
  of the Dirichlet edge that wrote the cell last, in the order top, bottom, left, right: the
  one edge the cell lies on, or at a corner of two Dirichlet edges the later of the two.
\<close>

theorem dirichlet_cells_fixed:
  assumes "i < n" and "j < n" and "boundary_mask n bc ! i ! j"
  shows "initial_grid n bc ! i ! j =
           (if j = n - 1 \<and> etype (bc_right bc) = Dirichlet then evalue (bc_right bc)
            else if j = 0 \<and> etype (bc_left bc) = Dirichlet then evalue (bc_left bc)
            else if i = n - 1 \<and> etype (bc_bottom bc) = Dirichlet then evalue (bc_bottom bc)
            else evalue (bc_top bc))
       \<and> grid_at n bc k ! i ! j = initial_grid n bc ! i ! j
       \<and> jacobi_sweep n (boundary_mask n bc) (grid_at n bc k) ! i ! j = initial_grid n bc ! i ! j
       \<and> (\<forall>s. solve n bc tol mi = Inr s \<longrightarrow> u s ! i ! j = initial_grid n bc ! i ! j)"
proof (intro conjI allI impI)
  show "initial_grid n bc ! i ! j =
           (if j = n - 1 \<and> etype (bc_right bc) = Dirichlet then evalue (bc_right bc)
            else if j = 0 \<and> etype (bc_left bc) = Dirichlet then evalue (bc_left bc)
            else if i = n - 1 \<and> etype (bc_bottom bc) = Dirichlet then evalue (bc_bottom bc)
            else evalue (bc_top bc))"
    using assms cell_initial_grid [of i n j bc] cell_boundary_mask [of i n j bc] by auto
next
  show at: "grid_at n bc k ! i ! j = initial_grid n bc ! i ! j"
    using assms by (rule grid_at_masked)
  show "jacobi_sweep n (boundary_mask n bc) (grid_at n bc k) ! i ! j = initial_grid n bc ! i ! j"
    using assms at cell_jacobi_sweep [OF is_grid_grid_at, of i n j "boundary_mask n bc" bc k]
    by simp
next
  fix s
  assume "solve n bc tol mi = Inr s"
  then obtain k' where "u s = grid_at n bc k'"
    using solve_grid by blast
  then show "u s ! i ! j = initial_grid n bc ! i ! j"
    using assms by (simp add: grid_at_masked)
qed

text \<open>Top and left fixed, bottom and right Neumann: the cell \<open>(0, 1)\<close> of the top edge.\<close>

theorem dirichlet_cells_fixed_witness:
  "boundary_mask 3 \<lparr>bc_top = \<lparr>etype = Dirichlet, evalue = 100\<rparr>, bc_bottom = \<lparr>etype = Neumann, evalue = 2\<rparr>,
       bc_left = \<lparr>etype = Dirichlet, evalue = 7\<rparr>, bc_right = \<lparr>etype = Neumann, evalue = 0\<rparr>\<rparr> ! 0 ! 1
   \<and> grid_at 3 \<lparr>bc_top = \<lparr>etype = Dirichlet, evalue = 100\<rparr>, bc_bottom = \<lparr>etype = Neumann, evalue = 2\<rparr>,
       bc_left = \<lparr>etype = Dirichlet, evalue = 7\<rparr>, bc_right = \<lparr>etype = Neumann, evalue = 0\<rparr>\<rparr> 5 ! 0 ! 1 = 100
   \<and> solve 3 \<lparr>bc_top = \<lparr>etype = Dirichlet, evalue = 100\<rparr>, bc_bottom = \<lparr>etype = Neumann, evalue = 2\<rparr>,
       bc_left = \<lparr>etype = Dirichlet, evalue = 7\<rparr>, bc_right = \<lparr>etype = Neumann, evalue = 0\<rparr>\<rparr> (1 / 10000) 2
       = Inr \<lparr>u = [[7, 100, 100], [7, 317 / 8, 317 / 8], [7, 301 / 8, 0]], converged = False,
              final_iteration = None, convergence_history = [107 / 4, 103 / 8]\<rparr>
   \<and> u \<lparr>u = [[7, 100, 100], [7, 317 / 8, 317 / 8], [7, 301 / 8, 0 :: real]], converged = False,
              final_iteration = None, convergence_history = [107 / 4, 103 / 8]\<rparr> ! 0 ! 1 = 100"
proof -
  let ?bc = "\<lparr>bc_top = \<lparr>etype = Dirichlet, evalue = 100\<rparr>, bc_bottom = \<lparr>etype = Neumann, evalue = 2\<rparr>,
       bc_left = \<lparr>etype = Dirichlet, evalue = 7\<rparr>, bc_right = \<lparr>etype = Neumann, evalue = 0\<rparr>\<rparr>"
  let ?s = "\<lparr>u = [[7, 100, 100], [7, 317 / 8, 317 / 8], [7, 301 / 8, 0 :: real]], converged = False,
              final_iteration = None, convergence_history = [107 / 4, 103 / 8 :: real]\<rparr>"
  have m: "boundary_mask 3 ?bc ! 0 ! 1"
    by (simp add: run_defs)
  have e: "solve 3 ?bc (1 / 10000) 2 = Inr ?s"
    by (simp add: run_defs)
  have p: "(0::nat) < 3" "(1::nat) < 3" by simp_all
  note th = dirichlet_cells_fixed [OF p m, of 5 "1 / 10000" 2]
  have i: "initial_grid 3 ?bc ! 0 ! 1 = 100"
    using th by simp
  have "grid_at 3 ?bc 5 ! 0 ! 1 = 100"
    using th i by simp
  moreover have "u ?s ! 0 ! 1 = initial_grid 3 ?bc ! 0 ! 1"
    using th e by blast
  ultimately show ?thesis
    using m e i by simp
qed

text \<open>
  C4, as stated, fails at the two ends of an edge. With every edge Neumann at 3 on a 4 by 4
  grid, the first iteration sets the top row to \<open>[0, 3, 3, 0]\<close>: the cell \<open>(0, 0)\<close> of the top
  edge still holds 0, where the cell below it in the new grid plus the edge's value is 3.
\<close>

theorem neumann_whole_edge_counterexample:
  "solve 4 (uniform_bc Neumann 3) (1 / 10000) 1 =
     Inr \<lparr>u = [[0, 3, 3, 0], [3, 0, 0, - 3], [3, 0, 0, - 3], [0, - 3, - 3, 0]], converged = False,
          final_iteration = None, convergence_history = [3]\<rparr>
   \<and> etype (bc_top (uniform_bc Neumann 3)) = Neumann
   \<and> u (loop_body 4 (uniform_bc Neumann 3) (boundary_mask 4 (uniform_bc Neumann 3)) (1 / 10000) 0
          \<lparr>u = initial_grid 4 (uniform_bc Neumann 3), converged = False,
           final_iteration = None, convergence_history = []\<rparr>) ! 0 ! 0 = 0
   \<and> jacobi_sweep 4 (boundary_mask 4 (uniform_bc Neumann 3))
          (initial_grid 4 (uniform_bc Neumann 3)) ! 1 ! 0
        + evalue (bc_top (uniform_bc Neumann 3)) = 3"
  by (simp add: run_defs)

text \<open>
  C4, amended. In every iteration, on an \<open>n\<close> by \<open>n\<close> grid, the cells of a Neumann edge other
  than its two end cells, that is the indices \<open>1 .. n - 2\<close> along the edge, are set from the
  neighbouring interior row or column of the new grid as the interior update left it: the
  top and the left edge add the edge's value, the bottom and the right edge subtract it.
  The end cells of the edges, the four corners of the grid, are not written and keep the
  value they had.
\<close>

theorem neumann_edges:
  assumes "is_grid n (u s)" and "1 \<le> m" and "m \<le> n - 2"
  shows "(etype (bc_top bc) = Neumann \<longrightarrow>
            u (loop_body n bc (boundary_mask n bc) tol it s) ! 0 ! m =
              jacobi_sweep n (boundary_mask n bc) (u s) ! 1 ! m + evalue (bc_top bc))
       \<and> (etype (bc_bottom bc) = Neumann \<longrightarrow>
            u (loop_body n bc (boundary_mask n bc) tol it s) ! (n - 1) ! m =
              jacobi_sweep n (boundary_mask n bc) (u s) ! (n - 2) ! m - evalue (bc_bottom bc))
       \<and> (etype (bc_left bc) = Neumann \<longrightarrow>
            u (loop_body n bc (boundary_mask n bc) tol it s) ! m ! 0 =
              jacobi_sweep n (boundary_mask n bc) (u s) ! m ! 1 + evalue (bc_left bc))
       \<and> (etype (bc_right bc) = Neumann \<longrightarrow>
            u (loop_body n bc (boundary_mask n bc) tol it s) ! m ! (n - 1) =
              jacobi_sweep n (boundary_mask n bc) (u s) ! m ! (n - 2) - evalue (bc_right bc))
       \<and> u (loop_body n bc (boundary_mask n bc) tol it s) ! 0 ! 0 = u s ! 0 ! 0
       \<and> u (loop_body n bc (boundary_mask n bc) tol it s) ! 0 ! (n - 1) = u s ! 0 ! (n - 1)
       \<and> u (loop_body n bc (boundary_mask n bc) tol it s) ! (n - 1) ! 0 = u s ! (n - 1) ! 0
       \<and> u (loop_body n bc (boundary_mask n bc) tol it s) ! (n - 1) ! (n - 1) = u s ! (n - 1) ! (n - 1)"
proof -
  let ?J = "jacobi_sweep n (boundary_mask n bc) (u s)"
  have J: "is_grid n ?J" using assms(1) by (rule is_grid_jacobi_sweep)
  have n: "3 \<le> n" and m: "m < n - 1" "m < n" using assms by auto
  have z: "0 < n" "n - 1 < n" using n by auto
  have edges: "(etype (bc_top bc) = Neumann \<longrightarrow>
            u (loop_body n bc (boundary_mask n bc) tol it s) ! 0 ! m =
              jacobi_sweep n (boundary_mask n bc) (u s) ! 1 ! m + evalue (bc_top bc))
       \<and> (etype (bc_bottom bc) = Neumann \<longrightarrow>
            u (loop_body n bc (boundary_mask n bc) tol it s) ! (n - 1) ! m =
              jacobi_sweep n (boundary_mask n bc) (u s) ! (n - 2) ! m - evalue (bc_bottom bc))
       \<and> (etype (bc_left bc) = Neumann \<longrightarrow>
            u (loop_body n bc (boundary_mask n bc) tol it s) ! m ! 0 =
              jacobi_sweep n (boundary_mask n bc) (u s) ! m ! 1 + evalue (bc_left bc))
       \<and> (etype (bc_right bc) = Neumann \<longrightarrow>
            u (loop_body n bc (boundary_mask n bc) tol it s) ! m ! (n - 1) =
              jacobi_sweep n (boundary_mask n bc) (u s) ! m ! (n - 2) - evalue (bc_right bc))"
    using n m assms(2)
      cell_apply_neumann [OF J z(1) m(2), of bc]
      cell_apply_neumann [OF J z(2) m(2), of bc]
      cell_apply_neumann [OF J m(2) z(1), of bc]
      cell_apply_neumann [OF J m(2) z(2), of bc]
    by (auto simp: u_loop_body sweep_def)
  have corners: "u (loop_body n bc (boundary_mask n bc) tol it s) ! i ! j = u s ! i ! j"
    if "i = 0 \<or> i = n - 1" and "j = 0 \<or> j = n - 1" for i j
  proof -
    have "i < n" "j < n" using that z by auto
    then show ?thesis
      using that assms(1) by (simp add: u_loop_body cell_sweep_corner)
  qed
  show ?thesis
    using edges corners [of 0 0] corners [of 0 "n - 1"] corners [of "n - 1" 0]
      corners [of "n - 1" "n - 1"]
    by simp
qed

text \<open>One iteration on a 3 by 3 grid with every edge Neumann at 5.\<close>

theorem neumann_edges_witness:
  "is_grid 3 [[1, 0, 2], [0, 8, 0], [3, 0, 4 :: real]]
   \<and> u (loop_body 3 (uniform_bc Neumann 5) (boundary_mask 3 (uniform_bc Neumann 5)) (1 / 10000) 0
          \<lparr>u = [[1, 0, 2], [0, 8, 0], [3, 0, 4]], converged = False,
           final_iteration = None, convergence_history = []\<rparr>)
       = [[1, 5, 2], [5, 0, - 5], [3, - 5, 4]]
   \<and> jacobi_sweep 3 (boundary_mask 3 (uniform_bc Neumann 5)) [[1, 0, 2], [0, 8, 0], [3, 0, 4]]
       = [[1, 0, 2], [0, 0, 0], [3, 0, 4]]"
proof -
  let ?s = "\<lparr>u = [[1, 0, 2], [0, 8, 0], [3, 0, 4 :: real]], converged = False,
           final_iteration = None, convergence_history = []\<rparr>"
  have g: "is_grid 3 (u ?s)"
    by (simp add: is_grid_def eval_nat_numeral less_Suc_eq)
  have e: "u (loop_body 3 (uniform_bc Neumann 5) (boundary_mask 3 (uniform_bc Neumann 5)) (1 / 10000) 0 ?s)
       = [[1, 5, 2], [5, 0, - 5], [3, - 5, 4]]"
    by (simp add: run_defs)
  have j: "jacobi_sweep 3 (boundary_mask 3 (uniform_bc Neumann 5)) [[1, 0, 2], [0, 8, 0], [3, 0, 4]]
       = [[1, 0, 2], [0, 0, 0], [3, 0, 4]]"
    by (simp add: run_defs)
  show ?thesis
    using g e j neumann_edges [OF g, of 1 "uniform_bc Neumann 5" "1 / 10000" 0]
    by simp
qed

text \<open>
  C5, as stated, fails. With every edge Neumann at 5 on a 3 by 3 grid, the corner \<open>(0, 0)\<close>
  belongs to the top and the left edge. After one iteration it still holds 0: it is neither
  the left edge's formula (the cell to its right plus 5, which is 10) nor the top edge's
  (the cell below plus 5, which is 10).
\<close>

theorem corner_overwrite_counterexample:
  "solve 3 (uniform_bc Neumann 5) (1 / 10000) 1 =
     Inr \<lparr>u = [[0, 5, 0], [5, 0, - 5], [0, - 5, 0]], converged = False, final_iteration = None,
          convergence_history = [5]\<rparr>
   \<and> grid_at 3 (uniform_bc Neumann 5) 1 ! 0 ! 0 = 0
   \<and> grid_at 3 (uniform_bc Neumann 5) 1 ! 0 ! 1 + evalue (bc_left (uniform_bc Neumann 5)) = 10
   \<and> grid_at 3 (uniform_bc Neumann 5) 1 ! 1 ! 0 + evalue (bc_top (uniform_bc Neumann 5)) = 10"
  by (simp add: run_defs)

text \<open>
  C5, amended. No Neumann update writes a corner: each one assigns the indices \<open>1 .. n - 2\<close>
  of its edge only, and the interior update does not reach the edges. So a corner keeps its
  value in every iteration and holds its initial value after any number of them; a corner
  of two Neumann edges holds 0 throughout (for \<open>n \<ge> 2\<close>), whatever the order of the updates.
\<close>

theorem corners_never_written:
  assumes "i < n" and "j < n" and "i = 0 \<or> i = n - 1" and "j = 0 \<or> j = n - 1"
  shows "(is_grid n (u s) \<longrightarrow> u (loop_body n bc (boundary_mask n bc) tol it s) ! i ! j = u s ! i ! j)
       \<and> grid_at n bc k ! i ! j = initial_grid n bc ! i ! j
       \<and> (2 \<le> n \<and> etype (if i = 0 then bc_top bc else bc_bottom bc) = Neumann
               \<and> etype (if j = 0 then bc_left bc else bc_right bc) = Neumann \<longrightarrow>
            grid_at n bc k ! i ! j = 0)"
proof (intro conjI impI)
  assume "is_grid n (u s)"
  then show "u (loop_body n bc (boundary_mask n bc) tol it s) ! i ! j = u s ! i ! j"
    using assms by (simp add: u_loop_body cell_sweep_corner)
next
  show at: "grid_at n bc k ! i ! j = initial_grid n bc ! i ! j"
    using assms by (rule grid_at_corner)
  assume "2 \<le> n \<and> etype (if i = 0 then bc_top bc else bc_bottom bc) = Neumann
               \<and> etype (if j = 0 then bc_left bc else bc_right bc) = Neumann"
  then have "initial_grid n bc ! i ! j = 0"
    using assms cell_initial_grid [of i n j bc] by (auto split: if_splits)
  then show "grid_at n bc k ! i ! j = 0"
    using at by simp
qed

text \<open>The corner \<open>(0, 2)\<close> of a 3 by 3 grid with every edge Neumann at 5.\<close>

theorem corners_never_written_witness:
  "is_grid 3 [[1, 2, 3], [4, 5, 6], [7, 8, 9 :: real]]
   \<and> u (loop_body 3 (uniform_bc Neumann 5) (boundary_mask 3 (uniform_bc Neumann 5)) (1 / 10000) 0
          \<lparr>u = [[1, 2, 3], [4, 5, 6], [7, 8, 9]], converged = False,
           final_iteration = None, convergence_history = []\<rparr>) ! 0 ! 2 = 3
   \<and> grid_at 3 (uniform_bc Neumann 5) 4 ! 0 ! 2 = 0"
proof -
  let ?s = "\<lparr>u = [[1, 2, 3], [4, 5, 6], [7, 8, 9 :: real]], converged = False,
           final_iteration = None, convergence_history = []\<rparr>"
  have g: "is_grid 3 (u ?s)"
    by (simp add: is_grid_def eval_nat_numeral less_Suc_eq)
  show ?thesis
    using g corners_never_written [of 0 3 2 ?s "uniform_bc Neumann 5" "1 / 10000" 0 4]
    by (simp add: uniform_bc_def)
qed

text \<open>
  C6, as stated, fails: the solver checks none of its parameters. A grid of size 2, a
  tolerance of 0 and an iteration cap of 0 each give a result and no error.
\<close>

theorem invalid_configuration_counterexample:
  "solve 2 (uniform_bc Dirichlet 1) (1 / 10000) 1 =
     Inr \<lparr>u = [[1, 1], [1, 1]], converged = False, final_iteration = None,
          convergence_history = [0]\<rparr>
   \<and> solve 3 (uniform_bc Dirichlet 1) 0 1 =
     Inr \<lparr>u = [[1, 1, 1], [1, 1, 1], [1, 1, 1]], converged = False, final_iteration = None,
          convergence_history = [1]\<rparr>
   \<and> solve 3 (uniform_bc Dirichlet 1) (1 / 10000) 0 =
     Inr \<lparr>u = [[1, 1, 1], [1, 0, 1], [1, 1, 1]], converged = False, final_iteration = None,
          convergence_history = []\<rparr>"
  by (simp add: run_defs)

text \<open>
  C6, amended. On every non-empty grid \<open>solve\<close> returns a result, whatever the tolerance and
  the iteration cap: there is no configuration check and no failure. With
  \<open>max_iterations = 0\<close> the result is the stamped initial grid, not converged, with an empty
  history; with \<open>tolerance \<le> 0\<close> the loop runs all \<open>max_iterations\<close> iterations and ends not
  converged. (For \<open>n = 0\<close> numpy raises before the loop.)
\<close>

theorem solve_never_validates:
  assumes "0 < n"
  shows "(\<exists>s. solve n bc tol mi = Inr s)
       \<and> solve n bc tol 0 =
           Inr \<lparr>u = initial_grid n bc, converged = False, final_iteration = None,
                convergence_history = []\<rparr>
       \<and> (tol \<le> 0 \<longrightarrow>
            solve n bc tol mi =
              Inr \<lparr>u = grid_at n bc mi, converged = False, final_iteration = None,
                   convergence_history = map (change_at n bc) [0..<mi]\<rparr>)"
proof (intro conjI impI)
  show "\<exists>s. solve n bc tol mi = Inr s"
    using assms by (simp add: solve_def)
  show "solve n bc tol 0 =
           Inr \<lparr>u = initial_grid n bc, converged = False, final_iteration = None,
                convergence_history = []\<rparr>"
    using assms by (simp add: solve_def)
next
  assume "tol \<le> 0"
  then have "\<not> (change_at n bc it < tol \<and> 10 < it)" for it
    using change_at_nonneg [OF assms, of bc it] by simp
  then show "solve n bc tol mi =
              Inr \<lparr>u = grid_at n bc mi, converged = False, final_iteration = None,
                   convergence_history = map (change_at n bc) [0..<mi]\<rparr>"
    using solve_cases [OF assms, of mi bc tol] by auto
qed

text \<open>A 2 by 2 grid with tolerance \<open>- 1\<close>, for two iterations and for none.\<close>

theorem solve_never_validates_witness:
  "(0::nat) < 2 \<and> (- 1 :: real) \<le> 0
   \<and> solve 2 (uniform_bc Dirichlet 1) (- 1) 2 =
       Inr \<lparr>u = [[1, 1], [1, 1]], converged = False, final_iteration = None,
            convergence_history = [0, 0]\<rparr>
   \<and> solve 2 (uniform_bc Dirichlet 1) (- 1) 0 =
       Inr \<lparr>u = [[1, 1], [1, 1]], converged = False, final_iteration = None,
            convergence_history = []\<rparr>"
proof -
  have "initial_grid 2 (uniform_bc Dirichlet 1) = [[1, 1], [1, 1]]"
    and "grid_at 2 (uniform_bc Dirichlet 1) 2 = [[1, 1], [1, 1]]"
    and "map (change_at 2 (uniform_bc Dirichlet 1)) [0..<2] = [0, 0]"
    by (simp_all add: run_defs)
  then show ?thesis
    using solve_never_validates [of 2 "uniform_bc Dirichlet 1" "- 1" 2] by simp
qed

text \<open>
  C7, as stated, fails: the interior starts at 0, not at \<open>V\<close>. With every edge fixed at 100
  the first sweep changes the field by 100 on the 3 by 3 grid and by 50 on the 4 by 4 grid,
  where the field is not uniform after it either.
\<close>

theorem uniform_dirichlet_counterexample:
  "solve 3 (uniform_bc Dirichlet 100) (1 / 10000) 1 =
     Inr \<lparr>u = [[100, 100, 100], [100, 100, 100], [100, 100, 100]], converged = False,
          final_iteration = None, convergence_history = [100]\<rparr>
   \<and> solve 4 (uniform_bc Dirichlet 100) (1 / 10000) 1 =
     Inr \<lparr>u = [[100, 100, 100, 100], [100, 50, 50, 100], [100, 50, 50, 100], [100, 100, 100, 100]],
          converged = False, final_iteration = None, convergence_history = [50]\<rparr>"
  by (simp add: run_defs)

text \<open>
  C7, amended. With all four edges Dirichlet at the same value \<open>V\<close> and \<open>n \<ge> 3\<close>: the change
  that the first sweep measures is 0 exactly when \<open>V = 0\<close>, and then the field is uniformly
  \<open>V\<close> after it; and the uniform field \<open>V\<close> is a fixed point of the sweep, which leaves it
  unchanged with a largest change of 0.
\<close>

theorem uniform_dirichlet_first_sweep:
  assumes "3 \<le> n"
  shows "(change_at n (uniform_bc Dirichlet V) 0 = 0 \<longleftrightarrow> V = 0)
       \<and> (V = 0 \<longrightarrow> grid_at n (uniform_bc Dirichlet V) 1 = full n V)
       \<and> sweep n (uniform_bc Dirichlet V) (boundary_mask n (uniform_bc Dirichlet V)) (full n V) = full n V
       \<and> max_change (full n V) (full n V) = 0"
proof -
  let ?bc = "uniform_bc Dirichlet V"
  have n: "0 < n" "1 < n" "1 < n - 1" using assms by auto
  have zero: "grid_at n ?bc 1 = full n V \<and> change_at n ?bc 0 = 0" if "V = 0"
  proof -
    have g0: "grid_at n ?bc 0 = full n 0"
      using that by (simp add: grid_at_def initial_grid_uniform_zero)
    have g1: "grid_at n ?bc 1 = full n 0"
      using that g0 sweep_uniform_fixed [of n 0] by (simp add: grid_at_def initial_grid_uniform_zero)
    show ?thesis
      using that g0 g1 n max_change_same [OF is_grid_full, of n 0]
      by (simp add: change_at_def)
  qed
  have nonzero: "V = 0" if c: "change_at n ?bc 0 = 0"
  proof -
    have "\<bar>grid_at n ?bc (Suc 0) ! 1 ! 1 - grid_at n ?bc 0 ! 1 ! 1\<bar> \<le> change_at n ?bc 0"
      unfolding change_at_def
      using n by (intro max_change_ge [OF is_grid_grid_at is_grid_grid_at]) auto
    moreover have "grid_at n ?bc 0 ! 1 ! 1 = 0"
      using n by (simp add: grid_at_def cell_initial_grid)
    moreover have "grid_at n ?bc (Suc 0) ! 1 ! 1 = jacobi_cell (initial_grid n ?bc) 1 1"
      using n cell_sweep_interior [OF is_grid_initial_grid, of 1 n 1 ?bc ?bc]
      by (simp add: grid_at_def)
    moreover have "jacobi_cell (initial_grid n ?bc) 1 1 = (if n = 3 then V else V / 2)"
      using n assms by (auto simp: jacobi_cell_def cell_initial_grid uniform_bc_def)
    ultimately show ?thesis using c by (auto split: if_splits)
  qed
  show ?thesis
    using zero nonzero sweep_uniform_fixed [of n V] max_change_same [OF is_grid_full n(1), of V]
    by auto
qed

text \<open>The 3 by 3 grid with every edge fixed at 0, and at 100.\<close>

theorem uniform_dirichlet_first_sweep_witness:
  "(3::nat) \<le> 3
   \<and> change_at 3 (uniform_bc Dirichlet 0) 0 = 0
   \<and> grid_at 3 (uniform_bc Dirichlet 0) 1 = [[0, 0, 0], [0, 0, 0], [0, 0, 0]]
   \<and> change_at 3 (uniform_bc Dirichlet 100) 0 \<noteq> 0"
  using uniform_dirichlet_first_sweep [of 3 0] uniform_dirichlet_first_sweep [of 3 100]
  by (simp add: full_def eval_nat_numeral)

text \<open>
  C2. The loop body sets \<open>converged\<close> exactly when \<open>max_change < tolerance\<close> and the
  zero-based index is above 10. So a run of \<open>solve\<close> ends converged exactly when some index
  below \<open>max_iterations\<close> passes that test; it then stopped at the first such index
  \<open>it\<close>, with \<open>final_iteration = it + 1\<close> as its iteration count, after \<open>it + 1\<close> sweeps and
  with \<open>it + 1\<close> history entries; and that count is at least 12.
\<close>

theorem convergence_declared:
  assumes "solve n bc tol mi = Inr s"
  shows "(converged (loop_body n bc bmask tol iteration s0) \<longleftrightarrow>
            converged s0 \<or> (max_change (sweep n bc bmask (u s0)) (u s0) < tol \<and> iteration > 10))
       \<and> (converged s \<longleftrightarrow> (\<exists>it<mi. change_at n bc it < tol \<and> it > 10))
       \<and> (converged s \<longrightarrow>
            (\<exists>it<mi. change_at n bc it < tol \<and> it > 10
               \<and> (\<forall>it'<it. \<not> (change_at n bc it' < tol \<and> it' > 10))
               \<and> final_iteration s = Some (it + 1)
               \<and> iterations_run mi s = it + 1
               \<and> u s = grid_at n bc (it + 1)
               \<and> convergence_history s = map (change_at n bc) [0..<it + 1]))
       \<and> (converged s \<longrightarrow> 12 \<le> iterations_run mi s)"
  using solve_result [OF assms]
proof (elim disjE exE conjE)
  fix it
  assume it: "it < mi" "change_at n bc it < tol" "10 < it"
    and first: "\<forall>it'<it. \<not> (change_at n bc it' < tol \<and> 10 < it')"
    and s: "s = \<lparr>u = grid_at n bc (Suc it), converged = True, final_iteration = Some (it + 1),
                    convergence_history = map (change_at n bc) [0..<Suc it]\<rparr>"
  have run: "iterations_run mi s = it + 1" by (simp add: s iterations_run_def)
  have "\<exists>it<mi. change_at n bc it < tol \<and> it > 10
               \<and> (\<forall>it'<it. \<not> (change_at n bc it' < tol \<and> it' > 10))
               \<and> final_iteration s = Some (it + 1)
               \<and> iterations_run mi s = it + 1
               \<and> u s = grid_at n bc (it + 1)
               \<and> convergence_history s = map (change_at n bc) [0..<it + 1]"
    using it first run by (intro exI [of _ it]) (simp add: s)
  moreover have "\<exists>it<mi. change_at n bc it < tol \<and> it > 10" using it by blast
  moreover have "converged s" by (simp add: s)
  moreover have "12 \<le> iterations_run mi s" using run it by simp
  ultimately show ?thesis by (simp only: converged_loop_body) blast
next
  assume none: "\<forall>it<mi. \<not> (change_at n bc it < tol \<and> 10 < it)"
    and s: "s = \<lparr>u = grid_at n bc mi, converged = False, final_iteration = None,
                    convergence_history = map (change_at n bc) [0..<mi]\<rparr>"
  have "\<not> converged s" by (simp add: s)
  moreover have "\<not> (\<exists>it<mi. change_at n bc it < tol \<and> it > 10)" using none by blast
  ultimately show ?thesis by (simp only: converged_loop_body) blast
qed

text \<open>Every edge fixed at 1 on a 3 by 3 grid converges at the index 11, after 12 iterations.\<close>

theorem convergence_declared_witness:
  "solve 3 (uniform_bc Dirichlet 1) (1 / 10) 20 =
     Inr \<lparr>u = [[1, 1, 1], [1, 1, 1], [1, 1, 1]], converged = True, final_iteration = Some 12,
          convergence_history = [1, 0, 0, 0, 0, 0, 0, 0, 0, 0, 0, 0]\<rparr>
   \<and> iterations_run 20 \<lparr>u = [[1, 1, 1], [1, 1, 1], [1, 1, 1]], converged = True, final_iteration = Some 12,
          convergence_history = [1, 0, 0, 0, 0, 0, 0, 0, 0, 0, 0, 0]\<rparr> \<ge> 12
   \<and> (\<exists>it<20. change_at 3 (uniform_bc Dirichlet 1) it < 1 / 10 \<and> it > 10)"
proof -
  have e: "solve 3 (uniform_bc Dirichlet 1) (1 / 10) 20 =
     Inr \<lparr>u = [[1, 1, 1], [1, 1, 1], [1, 1, 1]], converged = True, final_iteration = Some 12,
          convergence_history = [1, 0, 0, 0, 0, 0, 0, 0, 0, 0, 0, 0]\<rparr>"
    by (simp add: run_defs)
  let ?s = "\<lparr>u = [[1, 1, 1], [1, 1, 1], [1, 1, 1 :: real]], converged = True,
          final_iteration = Some 12,
          convergence_history = [1, 0, 0, 0, 0, 0, 0, 0, 0, 0, 0, 0 :: real]\<rparr>"
  note th = convergence_declared [OF e, of "boundary_mask 3 (uniform_bc Dirichlet 1)" 0 ?s]
  have c: "converged ?s" by simp
  have "12 \<le> iterations_run 20 ?s" using th c by blast
  moreover have "\<exists>it<20. change_at 3 (uniform_bc Dirichlet 1) it < 1 / 10 \<and> it > 10"
    using th c by blast
  ultimately show ?thesis using e by blast
qed

text \<open>
  C8. The iteration count of a run is at most \<open>max_iterations\<close>, it is \<open>max_iterations\<close> when
  the run did not converge, the history has exactly that many entries, and the final grid
  is the grid after that many iterations.
\<close>

theorem iteration_count:
  assumes "solve n bc tol mi = Inr s"
  shows "iterations_run mi s \<le> mi
       \<and> (\<not> converged s \<longrightarrow> iterations_run mi s = mi)
       \<and> length (convergence_history s) = iterations_run mi s
       \<and> u s = grid_at n bc (iterations_run mi s)"
  using solve_result [OF assms]
  by (elim disjE exE conjE) (simp_all add: iterations_run_def)

text \<open>A run of five iterations, too few to converge.\<close>

theorem iteration_count_witness:
  "solve 3 (uniform_bc Dirichlet 1) (1 / 10) 5 =
     Inr \<lparr>u = [[1, 1, 1], [1, 1, 1], [1, 1, 1]], converged = False, final_iteration = None,
          convergence_history = [1, 0, 0, 0, 0]\<rparr>
   \<and> iterations_run 5 \<lparr>u = [[1, 1, 1], [1, 1, 1], [1, 1, 1]], converged = False, final_iteration = None,
          convergence_history = [1, 0, 0, 0, 0]\<rparr> = 5
   \<and> length [1, 0, 0, 0, 0 :: real] = 5"
proof -
  have e: "solve 3 (uniform_bc Dirichlet 1) (1 / 10) 5 =
     Inr \<lparr>u = [[1, 1, 1], [1, 1, 1], [1, 1, 1]], converged = False, final_iteration = None,
          convergence_history = [1, 0, 0, 0, 0]\<rparr>"
    by (simp add: run_defs)
  show ?thesis
    using e iteration_count [OF e] by simp
qed

text \<open>
  C10. The mask is true on the outermost rows and columns only, so it is false at every
  interior cell \<open>(i, j)\<close>, \<open>1 \<le> i, j \<le> n - 2\<close>: the interior loop recomputes every interior
  cell in every iteration, the sweep is the sweep without the mask test, and so is the whole
  solver.
\<close>

theorem mask_test_vacuous:
  "(1 \<le> i \<and> i \<le> n - 2 \<and> 1 \<le> j \<and> j \<le> n - 2 \<longrightarrow> \<not> boundary_mask n bc ! i ! j)
   \<and> (i < n \<and> j < n \<and> boundary_mask n bc ! i ! j \<longrightarrow> i = 0 \<or> i = n - 1 \<or> j = 0 \<or> j = n - 1)
   \<and> (is_grid n g \<and> 1 \<le> i \<and> i \<le> n - 2 \<and> 1 \<le> j \<and> j \<le> n - 2 \<longrightarrow>
        jacobi_sweep n (boundary_mask n bc) g ! i ! j = jacobi_cell g i j)
   \<and> jacobi_sweep n (boundary_mask n bc) g = jacobi_sweep_unmasked n g
   \<and> solve n bc tol mi = solve_unmasked n bc tol mi"
proof (intro conjI impI)
  assume "1 \<le> i \<and> i \<le> n - 2 \<and> 1 \<le> j \<and> j \<le> n - 2"
  then show "\<not> boundary_mask n bc ! i ! j"
    by (intro interior_not_masked) auto
next
  assume "i < n \<and> j < n \<and> boundary_mask n bc ! i ! j"
  then show "i = 0 \<or> i = n - 1 \<or> j = 0 \<or> j = n - 1"
    using cell_boundary_mask [of i n j bc] by auto
next
  assume h: "is_grid n g \<and> 1 \<le> i \<and> i \<le> n - 2 \<and> 1 \<le> j \<and> j \<le> n - 2"
  then have "i < n" "j < n" "i < n - 1" "j < n - 1" by auto
  then show "jacobi_sweep n (boundary_mask n bc) g ! i ! j = jacobi_cell g i j"
    using h interior_not_masked [of i n j bc] by (simp add: cell_jacobi_sweep)
next
  show "jacobi_sweep n (boundary_mask n bc) g = jacobi_sweep_unmasked n g"
    by (rule jacobi_sweep_unmasked_eq)
  show "solve n bc tol mi = solve_unmasked n bc tol mi"
    by (simp add: solve_def solve_unmasked_def for_loop_unmasked_eq)
qed

text \<open>The interior cell of the 3 by 3 grid with every edge fixed at 100.\<close>

theorem mask_test_vacuous_witness:
  "\<not> boundary_mask 3 (uniform_bc Dirichlet 100) ! 1 ! 1
   \<and> is_grid 3 [[100, 100, 100], [100, 0, 100], [100, 100, 100 :: real]]
   \<and> jacobi_sweep_unmasked 3 [[100, 100, 100], [100, 0, 100], [100, 100, 100]] ! 1 ! 1 = 100
   \<and> solve_unmasked 3 (uniform_bc Dirichlet 100) (1 / 10000) 1 =
       Inr \<lparr>u = [[100, 100, 100], [100, 100, 100], [100, 100, 100]], converged = False,
            final_iteration = None, convergence_history = [100]\<rparr>"
proof -
  have g: "is_grid 3 [[100, 100, 100], [100, 0, 100], [100, 100, 100 :: real]]"
    by (simp add: is_grid_def eval_nat_numeral less_Suc_eq)
  have c: "jacobi_cell [[100, 100, 100], [100, 0, 100], [100, 100, 100]] 1 1 = 100"
    by (simp add: jacobi_cell_def)
  have e: "solve 3 (uniform_bc Dirichlet 100) (1 / 10000) 1 =
       Inr \<lparr>u = [[100, 100, 100], [100, 100, 100], [100, 100, 100]], converged = False,
            final_iteration = None, convergence_history = [100]\<rparr>"
    by (simp add: run_defs)
  note th = mask_test_vacuous [of 1 3 1 "uniform_bc Dirichlet 100"
        "[[100, 100, 100], [100, 0, 100], [100, 100, 100]]" "1 / 10000" 1]
  have i: "(1::nat) \<le> 1 \<and> (1::nat) \<le> 3 - 2" by simp
  have m: "\<not> boundary_mask 3 (uniform_bc Dirichlet 100) ! 1 ! 1"
    using th i by blast
  have "jacobi_sweep 3 (boundary_mask 3 (uniform_bc Dirichlet 100))
          [[100, 100, 100], [100, 0, 100], [100, 100, 100]] ! 1 ! 1
        = jacobi_cell [[100, 100, 100], [100, 0, 100], [100, 100, 100]] 1 1"
    using th i g by blast
  moreover have "jacobi_sweep 3 (boundary_mask 3 (uniform_bc Dirichlet 100))
          [[100, 100, 100], [100, 0, 100], [100, 100, 100]]
        = jacobi_sweep_unmasked 3 [[100, 100, 100], [100, 0, 100], [100, 100, 100]]"
    using th by blast
  ultimately have j: "jacobi_sweep_unmasked 3 [[100, 100, 100], [100, 0, 100], [100, 100, 100]] ! 1 ! 1 = 100"
    using c by simp
  have "solve 3 (uniform_bc Dirichlet 100) (1 / 10000) 1
      = solve_unmasked 3 (uniform_bc Dirichlet 100) (1 / 10000) 1"
    using th by blast
  then have "solve_unmasked 3 (uniform_bc Dirichlet 100) (1 / 10000) 1 =
       Inr \<lparr>u = [[100, 100, 100], [100, 100, 100], [100, 100, 100]], converged = False,
            final_iteration = None, convergence_history = [100]\<rparr>"
    using e by simp
  then show ?thesis using m g j by blast
qed

end
